theory Spec2Isabelle
  imports Complex_Main
begin

section \<open>The liquid-level guard of \<open>main.py\<close>\<close>

text \<open>
  The program reads a voltage once per cycle, keeps the recent readings in a bounded
  queue, classifies the reading together with the average of the queue into one of four
  string-tagged states, and drives a power switch through a cool-off guard.

  Python's floats are modelled as \<^typ>\<open>real\<close>: the comparisons of the program are
  exact on finite floats, and the sums and quotients of the concrete readings used
  below (1.5, 2.25 and their partial sums) are exactly representable in binary floating
  point. On other values \<open>avg\<close> below is the exact mean, which the float computation
  rounds; no property below depends on the value of an average except on those
  readings. A NaN, which fails every comparison, is not a value of the model. The value of
  \<open>time.monotonic()\<close> is a parameter \<open>now\<close> of every operation that reads the clock.
  Exceptions are values of the type \<open>error\<close>.
\<close>

subsection \<open>Settings\<close>

datatype error = IndexError | ZeroDivisionError | KeyError

definition ledBrightness :: real where
  "ledBrightness = 1.0"

definition infoThresholdVolts :: real where
  "infoThresholdVolts = 2.00"

definition noticeThresholdVolts :: real where
  "noticeThresholdVolts = 2.12"

definition warnThresholdVolts :: real where
  "warnThresholdVolts = 2.20"

definition acPowerOn :: bool where
  "acPowerOn = False"

definition acPowerOff :: bool where
  "acPowerOff = (\<not> acPowerOn)"

subsection \<open>The queue\<close>

text \<open>\<open>class Queue\<close>: the field \<open>max\<close> is \<open>None\<close> or an integer, \<open>store\<close> is a list.\<close>

record 'a Queue =
  max_q :: "int option"
  store :: "'a list"

definition Queue_init :: "int option \<Rightarrow> 'a Queue" where
  "Queue_init m = \<lparr>max_q = m, store = []\<rparr>"

definition len_q :: "'a Queue \<Rightarrow> int" where
  "len_q q = int (length (store q))"

text \<open>\<open>popleft\<close>: \<open>self.store[0]\<close> raises \<open>IndexError\<close> on the empty list.\<close>

definition popleft :: "'a Queue \<Rightarrow> error + ('a \<times> 'a Queue)" where
  "popleft q =
     (case store q of
        [] \<Rightarrow> Inl IndexError
      | v # rest \<Rightarrow> Inr (v, q\<lparr>store := rest\<rparr>))"

text \<open>
  The \<open>while True: ... break\<close> loop of \<open>append\<close>: it pops first and tests afterwards.
\<close>

function popLoop :: "'a Queue \<Rightarrow> int \<Rightarrow> error + 'a Queue" where
  "popLoop q neededLen =
     (case popleft q of
        Inl e \<Rightarrow> Inl e
      | Inr (v, q') \<Rightarrow>
          if len_q q' \<le> neededLen then Inr q' else popLoop q' neededLen)"
  by pat_completeness auto
termination
  by (relation "measure (\<lambda>(q, n). length (store q))")
     (auto simp: popleft_def split: list.splits)

definition append_q :: "'a Queue \<Rightarrow> 'a \<Rightarrow> error + 'a Queue" where
  "append_q q newElem =
     (case (case max_q q of
              None \<Rightarrow> Inr q
            | Some m \<Rightarrow>
                (let neededLen = m - 1
                 in if len_q q > neededLen then popLoop q neededLen else Inr q)) of
        Inl e \<Rightarrow> Inl e
      | Inr q' \<Rightarrow> Inr (q'\<lparr>store := store q' @ [newElem]\<rparr>))"

text \<open>Appending a sequence of readings one at a time; the first exception ends the run.\<close>

fun appendAll :: "'a Queue \<Rightarrow> 'a list \<Rightarrow> error + 'a Queue" where
  "appendAll q [] = Inr q"
| "appendAll q (x # xs) =
     (case append_q q x of Inl e \<Rightarrow> Inl e | Inr q' \<Rightarrow> appendAll q' xs)"

subsection \<open>Helpers\<close>

text \<open>
  \<open>avg\<close>: the loop adds every value to \<open>sum\<close>; the division by \<open>float(len(iter))\<close>
  raises \<open>ZeroDivisionError\<close> when the iterable is empty. A queue is averaged through
  its \<open>store\<close>, which is what \<open>__iter__\<close> and \<open>__len__\<close> delegate to.
\<close>

definition avg :: "real list \<Rightarrow> error + real" where
  "avg iter =
     (let sum = fold (\<lambda>value sum. sum + value) iter 0
      in if real (length iter) = 0 then Inl ZeroDivisionError
         else Inr (sum / real (length iter)))"

definition wheel :: "int \<Rightarrow> int list" where
  "wheel pos =
     (if pos < 0 then [0, 0, 0]
      else if pos > 255 then [0, 0, 0]
      else if pos < 85 then [pos * 3, 255 - (pos * 3), 0]
      else if pos < 170 then (let pos = pos - 85 in [255 - pos * 3, 0, pos * 3])
      else (let pos = pos - 170 in [0, pos * 3, 255 - pos * 3]))"

definition colors :: "string \<rightharpoonup> int" where
  "colors =
     [''orange'' \<mapsto> 52, ''yellow'' \<mapsto> 43, ''red'' \<mapsto> 85, ''blue'' \<mapsto> 170,
      ''green'' \<mapsto> 255]"

definition getColorValue :: "string \<Rightarrow> error + int list" where
  "getColorValue color =
     (case colors color of
        None \<Rightarrow> Inl KeyError
      | Some colorValue \<Rightarrow> Inr (wheel colorValue))"

subsection \<open>The power switch\<close>

text \<open>
  \<open>class AcPower\<close>. The field \<open>switch_value\<close> is \<open>self.switch.value\<close>; the switch object
  is written by no other code after the start of the program.
\<close>

record AcPower =
  coolOffSeconds :: real
  powerOffTime :: real
  switch_value :: bool

definition AcPower_init :: "bool \<Rightarrow> AcPower" where
  "AcPower_init sw = \<lparr>coolOffSeconds = 60, powerOffTime = - 1, switch_value = sw\<rparr>"

definition isCoolingOff :: "AcPower \<Rightarrow> real \<Rightarrow> bool" where
  "isCoolingOff a now =
     (if now - powerOffTime a < coolOffSeconds a then True else False)"

text \<open>\<open>turnAcOff\<close> returns \<open>self.powerOffTime\<close> together with the updated object.\<close>

definition turnAcOff :: "AcPower \<Rightarrow> real \<Rightarrow> real \<times> AcPower" where
  "turnAcOff a now =
     (let a1 = (if switch_value a = True \<or> powerOffTime a = - 1
                then a\<lparr>powerOffTime := now\<rparr> else a);
          a2 = a1\<lparr>switch_value := acPowerOff\<rparr>
      in (powerOffTime a2, a2))"

definition turnAcOn :: "AcPower \<Rightarrow> real \<Rightarrow> AcPower" where
  "turnAcOn a now =
     (if \<not> isCoolingOff a now then a\<lparr>switch_value := acPowerOn\<rparr> else a)"

subsection \<open>The classifier\<close>

record State =
  state :: string
  infoThreshold :: real
  noticeThreshold :: real
  warningThreshold :: real

definition State_init :: "real \<Rightarrow> real \<Rightarrow> real \<Rightarrow> State" where
  "State_init i n w =
     \<lparr>state = ''normal'', infoThreshold = i, noticeThreshold = n, warningThreshold = w\<rparr>"

definition getState :: "State \<Rightarrow> string" where
  "getState s = state s"

text \<open>
  One round of the \<open>for input in inputs\<close> loop on the four lists \<open>normal\<close>, \<open>info\<close>,
  \<open>notice\<close>, \<open>warning\<close>. The chain ends in an \<open>elif\<close>, so an input that passes none of
  the four tests appends nothing.
\<close>

definition applyInput ::
  "State \<Rightarrow> real \<Rightarrow> bool list \<times> bool list \<times> bool list \<times> bool list
     \<Rightarrow> bool list \<times> bool list \<times> bool list \<times> bool list" where
  "applyInput s input acc =
     (case acc of (normal, info, notice, warning) \<Rightarrow>
        if input < infoThreshold s then
          (normal @ [True], info @ [False], notice @ [False], warning @ [False])
        else if input \<ge> infoThreshold s \<and> input < noticeThreshold s then
          (normal @ [False], info @ [True], notice @ [False], warning @ [False])
        else if input \<ge> noticeThreshold s \<and> input < warningThreshold s then
          (normal @ [False], info @ [False], notice @ [True], warning @ [False])
        else if input \<ge> warningThreshold s then
          (normal @ [False], info @ [False], notice @ [False], warning @ [True])
        else (normal, info, notice, warning))"

text \<open>\<open>reduceAnd\<close> returns \<open>None\<close> on the empty list.\<close>

definition reduceAnd :: "bool list \<Rightarrow> bool option" where
  "reduceAnd results =
     (if length results < 1 then None
      else Some (fold (\<lambda>r output. output \<and> r) results True))"

text \<open>The truth value Python gives to the result of \<open>reduceAnd\<close> in an \<open>if\<close>.\<close>

definition truthy :: "bool option \<Rightarrow> bool" where
  "truthy r = (case r of None \<Rightarrow> False | Some b \<Rightarrow> b)"

definition applyInputs :: "State \<Rightarrow> real list \<Rightarrow> State" where
  "applyInputs s inputs =
     (if length inputs < 1 then s
      else
        (case fold (applyInput s) inputs ([], [], [], []) of
           (normal, info, notice, warning) \<Rightarrow>
             if truthy (reduceAnd normal) then s\<lparr>state := ''normal''\<rparr>
             else if truthy (reduceAnd info) then s\<lparr>state := ''info''\<rparr>
             else if truthy (reduceAnd notice) then s\<lparr>state := ''notice''\<rparr>
             else if truthy (reduceAnd warning) then s\<lparr>state := ''warning''\<rparr>
             else s))"

text \<open>A classifier after a sequence of calls of \<open>applyInputs\<close>.\<close>

fun applyAll :: "State \<Rightarrow> real list list \<Rightarrow> State" where
  "applyAll s [] = s"
| "applyAll s (inputs # rest) = applyAll (applyInputs s inputs) rest"

subsection \<open>The main loop\<close>

text \<open>
  The module-level objects of the loop. \<open>dot\<close> is the one-pixel LED strip: only its
  brightness and its pixel are kept.
\<close>

record DotStar =
  brightness :: real
  pixel :: "int list"

record Globals =
  g_dot :: DotStar
  g_recentLevels :: "real Queue"
  g_acPower :: AcPower
  g_state :: State

text \<open>
  The state at the entry of the loop: the queue of capacity 10, the switch set to
  \<open>acPowerOn\<close>, the classifier on the three thresholds of the settings. The LED starts
  as the library leaves it, which is a parameter here.
\<close>

definition Globals_init :: "DotStar \<Rightarrow> Globals" where
  "Globals_init d =
     \<lparr>g_dot = d,
      g_recentLevels = Queue_init (Some 10),
      g_acPower = AcPower_init acPowerOn,
      g_state = State_init infoThresholdVolts noticeThresholdVolts warnThresholdVolts\<rparr>"

text \<open>The guards of the \<open>if\<close>/\<open>elif\<close>/\<open>else\<close> chain on \<open>state.getState()\<close>, in order.\<close>

datatype branch = NormalBranch | InfoBranch | NoticeBranch | WarningBranch | ElseBranch

definition dispatch :: "string \<Rightarrow> branch" where
  "dispatch st =
     (if st = ''normal'' then NormalBranch
      else if st = ''info'' then InfoBranch
      else if st = ''notice'' then NoticeBranch
      else if st = ''warning'' then WarningBranch
      else ElseBranch)"

text \<open>The body of the branch taken: the LED and the power switch afterwards.\<close>

definition runBranch ::
  "branch \<Rightarrow> DotStar \<Rightarrow> AcPower \<Rightarrow> real \<Rightarrow> error + DotStar \<times> AcPower" where
  "runBranch b d a now =
     (case b of
        NormalBranch \<Rightarrow> Inr (d\<lparr>brightness := 0.0\<rparr>, turnAcOn a now)
      | InfoBranch \<Rightarrow>
          (case getColorValue ''orange'' of
             Inl e \<Rightarrow> Inl e
           | Inr c \<Rightarrow> Inr (d\<lparr>brightness := ledBrightness, pixel := c\<rparr>, turnAcOn a now))
      | NoticeBranch \<Rightarrow>
          (case getColorValue ''orange'' of
             Inl e \<Rightarrow> Inl e
           | Inr c \<Rightarrow> Inr (d\<lparr>brightness := ledBrightness, pixel := c\<rparr>, turnAcOn a now))
      | WarningBranch \<Rightarrow>
          (case getColorValue ''red'' of
             Inl e \<Rightarrow> Inl e
           | Inr c \<Rightarrow>
               Inr (d\<lparr>brightness := ledBrightness, pixel := c\<rparr>, snd (turnAcOff a now)))
      | ElseBranch \<Rightarrow>
          (case getColorValue ''blue'' of
             Inl e \<Rightarrow> Inl e
           | Inr c \<Rightarrow> Inr (d\<lparr>brightness := ledBrightness, pixel := c\<rparr>, a)))"

text \<open>
  One round of \<open>while True\<close>, from the voltage \<open>liquidLevelVolts\<close> that \<open>getVoltage\<close>
  returned and the clock value \<open>now\<close> read by the power switch in this round. \<open>avg\<close> is
  called twice, for the print and for \<open>applyInputs\<close>.
\<close>

definition tick :: "Globals \<Rightarrow> real \<Rightarrow> real \<Rightarrow> error + Globals" where
  "tick g liquidLevelVolts now =
     (case append_q (g_recentLevels g) liquidLevelVolts of
        Inl e \<Rightarrow> Inl e
      | Inr q \<Rightarrow>
          (case avg (store q) of
             Inl e \<Rightarrow> Inl e
           | Inr printed \<Rightarrow>
               (case avg (store q) of
                  Inl e \<Rightarrow> Inl e
                | Inr a \<Rightarrow>
                    (let st = applyInputs (g_state g) [liquidLevelVolts, a]
                     in case runBranch (dispatch (getState st)) (g_dot g) (g_acPower g) now of
                          Inl e \<Rightarrow> Inl e
                        | Inr (d, p) \<Rightarrow>
                            Inr \<lparr>g_dot = d\<lparr>brightness := 0.0\<rparr>,
                                 g_recentLevels = q,
                                 g_acPower = p,
                                 g_state = st\<rparr>))))"

text \<open>
  Several rounds, one pair of voltage and clock value each; the result lists what
  \<open>print(state.getState())\<close> shows in each round.
\<close>

fun runTicks :: "Globals \<Rightarrow> (real \<times> real) list \<Rightarrow> error + string list \<times> Globals" where
  "runTicks g [] = Inr ([], g)"
| "runTicks g ((v, now) # rest) =
     (case tick g v now of
        Inl e \<Rightarrow> Inl e
      | Inr g' \<Rightarrow>
          (case runTicks g' rest of
             Inl e \<Rightarrow> Inl e
           | Inr (shown, g'') \<Rightarrow> Inr (getState (g_state g') # shown, g'')))"

text \<open>What the rounds show, without the final state of the objects.\<close>

definition shownStates :: "Globals \<Rightarrow> (real \<times> real) list \<Rightarrow> error + string list" where
  "shownStates g rounds =
     (case runTicks g rounds of Inl e \<Rightarrow> Inl e | Inr (shown, g') \<Rightarrow> Inr shown)"

text \<open>The equations that evaluate one round on concrete values.\<close>

lemmas tick_eval =
  Globals_init_def tick_def append_q_def Queue_init_def len_q_def avg_def applyInputs_def
  applyInput_def State_init_def reduceAnd_def truthy_def getState_def dispatch_def runBranch_def
  getColorValue_def colors_def wheel_def infoThresholdVolts_def noticeThresholdVolts_def
  warnThresholdVolts_def AcPower_init_def turnAcOn_def turnAcOff_def isCoolingOff_def
  acPowerOn_def acPowerOff_def ledBrightness_def

section \<open>Properties of the queue\<close>

text \<open>
  With a capacity \<open>N \<ge> 1\<close> the loop of \<open>append\<close> keeps the last \<open>N - 1\<close> elements, so
  that the queue holds the last \<open>N\<close> elements once the new one is added.
\<close>

lemma popLoop_drop:
  "0 \<le> n \<Longrightarrow> len_q q > n \<Longrightarrow>
   popLoop q n = Inr (q\<lparr>store := drop (length (store q) - nat n) (store q)\<rparr>)"
proof (induction q n rule: popLoop.induct)
  case (1 q neededLen)
  from "1.prems" obtain v rest where st: "store q = v # rest"
    by (cases "store q") (auto simp: len_q_def)
  let ?q' = "q\<lparr>store := rest\<rparr>"
  have pl: "popleft q = Inr (v, ?q')" by (simp add: popleft_def st)
  show ?case
  proof (cases "len_q ?q' \<le> neededLen")
    case True
    with "1.prems" st have "length rest = nat neededLen" by (simp add: len_q_def)
    with pl True st show ?thesis
      by (subst popLoop.simps) simp
  next
    case False
    with "1.prems" have gt: "len_q ?q' > neededLen" by simp
    have "popLoop ?q' neededLen
            = Inr (?q'\<lparr>store := drop (length (store ?q') - nat neededLen) (store ?q')\<rparr>)"
      using "1.IH"[OF pl refl False "1.prems"(1) gt] .
    moreover from gt "1.prems"(1) have "Suc (length rest) - nat neededLen = Suc (length rest - nat neededLen)"
      by (simp add: len_q_def Suc_diff_le)
    ultimately show ?thesis using pl False st
      by (subst popLoop.simps) simp
  qed
qed

lemma append_q_drop:
  "1 \<le> N \<Longrightarrow> max_q q = Some N \<Longrightarrow>
   append_q q x = Inr (q\<lparr>store := drop (Suc (length (store q)) - nat N) (store q @ [x])\<rparr>)"
proof (cases "len_q q > N - 1")
  case True
  assume a: "1 \<le> N" "max_q q = Some N"
  have "popLoop q (N - 1) = Inr (q\<lparr>store := drop (length (store q) - nat (N - 1)) (store q)\<rparr>)"
    using popLoop_drop[of "N - 1" q] a True by simp
  moreover have "Suc (length (store q)) - nat N = length (store q) - nat (N - 1)"
    using a by (simp add: nat_diff_distrib)
  moreover have "length (store q) - nat (N - 1) \<le> length (store q)" by simp
  ultimately show ?thesis using a True by (simp add: append_q_def)
next
  case False
  assume a: "1 \<le> N" "max_q q = Some N"
  with False have "Suc (length (store q)) - nat N = 0" by (simp add: len_q_def)
  with a False show ?thesis by (simp add: append_q_def)
qed

lemma drop_keep_last:
  "drop (length (drop (length ys - n) ys) + length xs - n) (drop (length ys - n) ys @ xs)
     = drop (length ys + length xs - n) (ys @ xs)"
proof (cases "length ys \<le> n")
  case True
  then show ?thesis by simp
next
  case False
  then have n: "n < length ys" by simp
  then have "length ys + length xs - n = (length ys - n) + length xs" by simp
  then have "drop (length ys + length xs - n) (ys @ xs)
               = drop (length xs) (drop (length ys - n) (ys @ xs))"
    by (simp add: add.commute)
  also have "\<dots> = drop (length xs) (drop (length ys - n) ys @ xs)" by simp
  finally show ?thesis using n by simp
qed

lemma appendAll_drop:
  "1 \<le> N \<Longrightarrow> max_q q = Some N \<Longrightarrow> len_q q \<le> N \<Longrightarrow>
   appendAll q xs = Inr (q\<lparr>store := drop (length (store q) + length xs - nat N) (store q @ xs)\<rparr>)"
proof (induction xs arbitrary: q)
  case Nil
  then show ?case by (simp add: len_q_def)
next
  case (Cons x xs)
  let ?ys = "store q @ [x]"
  let ?q' = "q\<lparr>store := drop (length ?ys - nat N) ?ys\<rparr>"
  have s1: "append_q q x = Inr ?q'" using append_q_drop[OF Cons.prems(1,2)] by simp
  have m: "max_q ?q' = Some N" using Cons.prems by simp
  have l: "len_q ?q' \<le> N" using Cons.prems by (simp add: len_q_def)
  have "appendAll ?q' xs
          = Inr (?q'\<lparr>store := drop (length (store ?q') + length xs - nat N) (store ?q' @ xs)\<rparr>)"
    using Cons.IH[OF Cons.prems(1) m l] .
  also have "drop (length (store ?q') + length xs - nat N) (store ?q' @ xs)
               = drop (length ?ys + length xs - nat N) (?ys @ xs)"
    using drop_keep_last[of ?ys "nat N" xs] by simp
  finally show ?case using s1 by simp
qed

text \<open>
  Claim C7. For every capacity \<open>N \<ge> 1\<close> and every sequence of more than \<open>N\<close> readings
  appended one at a time to an empty queue with \<open>max = N\<close>, no append raises, the queue
  afterwards holds exactly the last \<open>N\<close> readings in their order of insertion (the
  evictions took the oldest ones, from the head), and after every prefix of the sequence
  the length of the queue is at most \<open>N\<close>.
\<close>

theorem C7_queue_keeps_last_N:
  assumes "1 \<le> N" and "N < int (length xs)"
  shows "appendAll (Queue_init (Some N)) xs
           = Inr \<lparr>max_q = Some N, store = drop (length xs - nat N) xs\<rparr>
         \<and> length (drop (length xs - nat N) xs) = nat N
         \<and> (\<forall>k \<le> length xs. \<exists>q. appendAll (Queue_init (Some N)) (take k xs) = Inr q
                \<and> len_q q \<le> N)"
proof -
  have init: "max_q (Queue_init (Some N) :: 'a Queue) = Some N"
     "len_q (Queue_init (Some N) :: 'a Queue) \<le> N"
    using assms(1) by (simp_all add: Queue_init_def len_q_def)
  have run: "appendAll (Queue_init (Some N)) ys
           = Inr \<lparr>max_q = Some N, store = drop (length ys - nat N) ys\<rparr>" for ys :: "'a list"
    using appendAll_drop[OF assms(1) init, of ys] by (simp add: Queue_init_def)
  have "len_q \<lparr>max_q = Some N, store = drop (length ys - nat N) ys\<rparr> \<le> N" for ys :: "'a list"
    using assms(1) by (simp add: len_q_def)
  with run have "\<exists>q. appendAll (Queue_init (Some N)) (take k xs) = Inr q \<and> len_q q \<le> N" for k
    by blast
  moreover have "length (drop (length xs - nat N) xs) = nat N"
    using assms by simp
  ultimately show ?thesis using run by blast
qed

theorem C7_queue_keeps_last_N_witness:
  "(1::int) \<le> 3 \<and> 3 < int (length [10, 20, 30, 40, 50 :: real])
   \<and> appendAll (Queue_init (Some 3)) [10, 20, 30, 40, 50 :: real]
        = Inr \<lparr>max_q = Some 3, store = [30, 40, 50]\<rparr>
   \<and> (\<exists>q. appendAll (Queue_init (Some 3)) (take 4 [10, 20, 30, 40, 50 :: real]) = Inr q
          \<and> len_q q \<le> 3)"
proof -
  have h: "(1::int) \<le> 3" "3 < int (length [10, 20, 30, 40, 50 :: real])" by simp_all
  note t = C7_queue_keeps_last_N[OF h]
  from t have "\<exists>q. appendAll (Queue_init (Some 3)) (take 4 [10, 20, 30, 40, 50 :: real]) = Inr q
          \<and> len_q q \<le> 3"
    by (elim conjE allE[of _ 4]) simp
  with t h show ?thesis by simp
qed

section \<open>Properties of the classifier\<close>

text \<open>
  The four lists that the loop of \<open>applyInputs\<close> builds, and the decision taken from
  them. On the reals every input passes one of the four tests.
\<close>

lemma fold_applyInput:
  "fold (applyInput s) inputs (n, i, nt, w) =
     (n @ map (\<lambda>x. x < infoThreshold s) inputs,
      i @ map (\<lambda>x. infoThreshold s \<le> x \<and> x < noticeThreshold s) inputs,
      nt @ map (\<lambda>x. infoThreshold s \<le> x \<and> noticeThreshold s \<le> x \<and> x < warningThreshold s) inputs,
      w @ map (\<lambda>x. infoThreshold s \<le> x \<and> noticeThreshold s \<le> x \<and> warningThreshold s \<le> x) inputs)"
  by (induction inputs arbitrary: n i nt w) (auto simp: applyInput_def)

lemma fold_and: "fold (\<lambda>r output. output \<and> r) rs b = (b \<and> (\<forall>r \<in> set rs. r))"
  by (induction rs arbitrary: b) auto

lemma truthy_reduceAnd_map:
  "truthy (reduceAnd (map P xs)) = (xs \<noteq> [] \<and> (\<forall>x \<in> set xs. P x))"
  by (cases xs) (auto simp: truthy_def reduceAnd_def fold_and)

lemma applyInputs_char:
  "applyInputs s inputs =
     (if inputs = [] then s
      else if \<forall>x \<in> set inputs. x < infoThreshold s then s\<lparr>state := ''normal''\<rparr>
      else if \<forall>x \<in> set inputs. infoThreshold s \<le> x \<and> x < noticeThreshold s
        then s\<lparr>state := ''info''\<rparr>
      else if \<forall>x \<in> set inputs. infoThreshold s \<le> x \<and> noticeThreshold s \<le> x \<and> x < warningThreshold s
        then s\<lparr>state := ''notice''\<rparr>
      else if \<forall>x \<in> set inputs. infoThreshold s \<le> x \<and> noticeThreshold s \<le> x \<and> warningThreshold s \<le> x
        then s\<lparr>state := ''warning''\<rparr>
      else s)"
proof (cases "inputs = []")
  case True
  then show ?thesis by (simp add: applyInputs_def)
next
  case False
  then have "\<not> length inputs < 1" by (cases inputs) simp_all
  then show ?thesis using False
    by (simp only: applyInputs_def fold_applyInput[of s inputs "[]" "[]" "[]" "[]"]
          append_Nil truthy_reduceAnd_map if_False prod.case)
       simp
qed


text \<open>
  Claim C5. Whatever the state before: when the inputs (one or more) do not all lie in
  the same one of the four half-open ranges (below \<open>infoThreshold\<close>; from
  \<open>infoThreshold\<close> to below \<open>noticeThreshold\<close>; from \<open>noticeThreshold\<close> to below
  \<open>warningThreshold\<close>; from \<open>warningThreshold\<close> on), \<open>applyInputs\<close> returns the object
  unchanged; with no input at all it returns the object unchanged as well.
\<close>

theorem C5_disagreement_keeps_state:
  "applyInputs s [] = s
   \<and> (inputs \<noteq> []
        \<and> \<not> (\<forall>x \<in> set inputs. x < infoThreshold s)
        \<and> \<not> (\<forall>x \<in> set inputs. infoThreshold s \<le> x \<and> x < noticeThreshold s)
        \<and> \<not> (\<forall>x \<in> set inputs. noticeThreshold s \<le> x \<and> x < warningThreshold s)
        \<and> \<not> (\<forall>x \<in> set inputs. warningThreshold s \<le> x)
      \<longrightarrow> applyInputs s inputs = s)"
proof (intro conjI impI)
  show "applyInputs s [] = s" by (simp add: applyInputs_def)
next
  assume a: "inputs \<noteq> []
        \<and> \<not> (\<forall>x \<in> set inputs. x < infoThreshold s)
        \<and> \<not> (\<forall>x \<in> set inputs. infoThreshold s \<le> x \<and> x < noticeThreshold s)
        \<and> \<not> (\<forall>x \<in> set inputs. noticeThreshold s \<le> x \<and> x < warningThreshold s)
        \<and> \<not> (\<forall>x \<in> set inputs. warningThreshold s \<le> x)"
  then have "\<not> (\<forall>x \<in> set inputs. infoThreshold s \<le> x \<and> noticeThreshold s \<le> x \<and> x < warningThreshold s)"
    and "\<not> (\<forall>x \<in> set inputs. infoThreshold s \<le> x \<and> noticeThreshold s \<le> x \<and> warningThreshold s \<le> x)"
    by blast+
  with a show "applyInputs s inputs = s"
    by (simp only: applyInputs_char if_False)
qed

theorem C5_disagreement_keeps_state_witness:
  "applyInputs (State_init 2.00 2.12 2.20\<lparr>state := ''info''\<rparr>) [2.25, 2.15]
     = State_init 2.00 2.12 2.20\<lparr>state := ''info''\<rparr>"
proof -
  let ?s = "State_init 2.00 2.12 2.20\<lparr>state := ''info''\<rparr>"
  let ?inputs = "[2.25, 2.15] :: real list"
  have h: "?inputs \<noteq> []
        \<and> \<not> (\<forall>x \<in> set ?inputs. x < infoThreshold ?s)
        \<and> \<not> (\<forall>x \<in> set ?inputs. infoThreshold ?s \<le> x \<and> x < noticeThreshold ?s)
        \<and> \<not> (\<forall>x \<in> set ?inputs. noticeThreshold ?s \<le> x \<and> x < warningThreshold ?s)
        \<and> \<not> (\<forall>x \<in> set ?inputs. warningThreshold ?s \<le> x)"
    by (simp only: list.set ball_simps) (simp add: State_init_def)
  from C5_disagreement_keeps_state[of ?s ?inputs] h show ?thesis by blast
qed

text \<open>
  Claim C6. With the thresholds in increasing order, \<open>applyInputs(x, x)\<close> sets the state
  to the tag of the range that holds \<open>x\<close>, whatever the state before: \<open>normal\<close> below
  \<open>infoThreshold\<close>, \<open>info\<close> from \<open>infoThreshold\<close> to below \<open>noticeThreshold\<close>, \<open>notice\<close>
  from \<open>noticeThreshold\<close> to below \<open>warningThreshold\<close>, \<open>warning\<close> from
  \<open>warningThreshold\<close> on. The instance below is the one with the thresholds 2.00, 2.12,
  2.20 and the values 1.50, 2.05, 2.15, 2.25.
\<close>

theorem C6_repeated_value:
  assumes "infoThreshold s \<le> noticeThreshold s" and "noticeThreshold s \<le> warningThreshold s"
  shows "(x < infoThreshold s \<longrightarrow> state (applyInputs s [x, x]) = ''normal'')
       \<and> (infoThreshold s \<le> x \<and> x < noticeThreshold s \<longrightarrow> state (applyInputs s [x, x]) = ''info'')
       \<and> (noticeThreshold s \<le> x \<and> x < warningThreshold s \<longrightarrow> state (applyInputs s [x, x]) = ''notice'')
       \<and> (warningThreshold s \<le> x \<longrightarrow> state (applyInputs s [x, x]) = ''warning'')"
  using assms by (simp add: applyInputs_char)

theorem C6_repeated_value_witness:
  "state (applyInputs (State_init 2.00 2.12 2.20) [1.50, 1.50]) = ''normal''
   \<and> state (applyInputs (State_init 2.00 2.12 2.20) [2.05, 2.05]) = ''info''
   \<and> state (applyInputs (State_init 2.00 2.12 2.20) [2.15, 2.15]) = ''notice''
   \<and> state (applyInputs (State_init 2.00 2.12 2.20) [2.25, 2.25]) = ''warning''"
  using C6_repeated_value[of "State_init 2.00 2.12 2.20" "1.50"]
        C6_repeated_value[of "State_init 2.00 2.12 2.20" "2.05"]
        C6_repeated_value[of "State_init 2.00 2.12 2.20" "2.15"]
        C6_repeated_value[of "State_init 2.00 2.12 2.20" "2.25"]
  by (simp add: State_init_def)

subsection \<open>The state stays one of the four tags\<close>

lemma applyInputs_state:
  "state (applyInputs s inputs) \<in> {state s, ''normal'', ''info'', ''notice'', ''warning''}"
  by (simp add: applyInputs_char)

lemma applyInputs_four:
  "state s \<in> {''normal'', ''info'', ''notice'', ''warning''} \<Longrightarrow>
   state (applyInputs s inputs) \<in> {''normal'', ''info'', ''notice'', ''warning''}"
  using applyInputs_state[of s inputs] by auto

lemma applyAll_four:
  "state s \<in> {''normal'', ''info'', ''notice'', ''warning''} \<Longrightarrow>
   state (applyAll s calls) \<in> {''normal'', ''info'', ''notice'', ''warning''}"
proof (induction calls arbitrary: s)
  case Nil
  then show ?case by simp
next
  case (Cons inputs calls)
  from Cons.IH[OF applyInputs_four[OF Cons.prems, of inputs]] show ?case by simp
qed

lemma dispatch_four:
  "st \<in> {''normal'', ''info'', ''notice'', ''warning''} \<Longrightarrow> dispatch st \<noteq> ElseBranch"
  by (auto simp: dispatch_def)

section \<open>Properties of the power switch\<close>

text \<open>
  Claim C1, evaluated on the code. The first \<open>turnAcOff\<close>, at time 0 on the fresh object,
  records the time 0 and sets the switch to \<open>acPowerOff\<close>. The second one, at time 5 with
  the switch already off, records the time 5: the test \<open>self.switch.value is True\<close> holds
  exactly when the switch is off, since \<open>acPowerOff\<close> is \<open>True\<close>. The comment in the source
  asks for the time to be set only if the preceding state is on.
\<close>

theorem C1_turnAcOff_twice_resets_timestamp:
  "turnAcOff (AcPower_init acPowerOn) 0
     = (0, \<lparr>coolOffSeconds = 60, powerOffTime = 0, switch_value = acPowerOff\<rparr>)
   \<and> turnAcOff (snd (turnAcOff (AcPower_init acPowerOn) 0)) 5
     = (5, \<lparr>coolOffSeconds = 60, powerOffTime = 5, switch_value = acPowerOff\<rparr>)"
  by (simp add: turnAcOff_def AcPower_init_def acPowerOn_def acPowerOff_def)

text \<open>
  Claim C2, evaluated on the code. Before any \<open>turnAcOff\<close> the time reference is the
  initial \<open>-1\<close>, which \<open>isCoolingOff\<close> subtracts like a recorded time: at the clock
  value 10 it answers \<open>True\<close>.
\<close>

theorem C2_isCoolingOff_before_any_turnOff:
  "powerOffTime (AcPower_init acPowerOn) = - 1
   \<and> isCoolingOff (AcPower_init acPowerOn) 10 = True"
  by (simp add: isCoolingOff_def AcPower_init_def)

text \<open>
  The two sides of the test in \<open>turnAcOff\<close>: with the switch off the time is always
  recorded anew; with the switch on and a time already recorded, the time is kept. A
  fresh object counts as cooling off until the clock reaches 59.
\<close>

lemma turnAcOff_while_off:
  "switch_value a = acPowerOff \<Longrightarrow> powerOffTime (snd (turnAcOff a now)) = now"
  by (simp add: turnAcOff_def acPowerOff_def acPowerOn_def)

lemma turnAcOff_while_on:
  "switch_value a = acPowerOn \<Longrightarrow> powerOffTime a \<noteq> - 1 \<Longrightarrow>
   powerOffTime (snd (turnAcOff a now)) = powerOffTime a"
  by (simp add: turnAcOff_def acPowerOff_def acPowerOn_def)

lemma isCoolingOff_never_off:
  "isCoolingOff (AcPower_init sw) now = (now < 59)"
  by (auto simp: isCoolingOff_def AcPower_init_def)

text \<open>
  Claim C8. On a fresh \<open>AcPower\<close> (its cool-off period is 60 seconds), after \<open>turnAcOff\<close>
  at time 0 the switch is off; \<open>turnAcOn\<close> at time 30 changes nothing, so the switch
  stays off; \<open>turnAcOn\<close> at time 61 sets the switch to \<open>acPowerOn\<close>, also when the call at
  time 30 came before it.
\<close>

theorem C8_cool_off_scenario:
  "coolOffSeconds (AcPower_init sw) = 60
   \<and> (let a1 = snd (turnAcOff (AcPower_init sw) 0)
      in switch_value a1 = acPowerOff
       \<and> isCoolingOff a1 30
       \<and> turnAcOn a1 30 = a1
       \<and> switch_value (turnAcOn a1 30) = acPowerOff
       \<and> \<not> isCoolingOff a1 61
       \<and> switch_value (turnAcOn a1 61) = acPowerOn
       \<and> switch_value (turnAcOn (turnAcOn a1 30) 61) = acPowerOn)
   \<and> acPowerOn \<noteq> acPowerOff"
  by (simp add: turnAcOff_def turnAcOn_def isCoolingOff_def AcPower_init_def acPowerOn_def
        acPowerOff_def Let_def)

section \<open>Properties of the main loop\<close>

text \<open>
  A round whose queue has a capacity of at least 1 raises nothing: the queue is not
  empty when it is averaged, and the colours looked up are keys of \<open>colors\<close>.
\<close>

lemma avg_nonempty: "xs \<noteq> [] \<Longrightarrow> \<exists>a. avg xs = Inr a"
  by (simp add: avg_def)

lemma runBranch_Inr:
  "\<exists>d'. runBranch b d a now =
     Inr (d', case b of WarningBranch \<Rightarrow> snd (turnAcOff a now)
                | ElseBranch \<Rightarrow> a
                | _ \<Rightarrow> turnAcOn a now)"
  by (cases b) (simp_all add: runBranch_def getColorValue_def colors_def)

lemma tick_Inr:
  assumes "max_q (g_recentLevels g) = Some N" and "1 \<le> N"
  shows "\<exists>d q a. tick g v now =
           Inr \<lparr>g_dot = d, g_recentLevels = q,
                g_acPower =
                  (case dispatch (getState (applyInputs (g_state g) [v, a])) of
                     WarningBranch \<Rightarrow> snd (turnAcOff (g_acPower g) now)
                   | ElseBranch \<Rightarrow> g_acPower g
                   | _ \<Rightarrow> turnAcOn (g_acPower g) now),
                g_state = applyInputs (g_state g) [v, a]\<rparr>
           \<and> max_q q = Some N"
proof -
  let ?q = "(g_recentLevels g)\<lparr>store :=
              drop (Suc (length (store (g_recentLevels g))) - nat N) (store (g_recentLevels g) @ [v])\<rparr>"
  have "append_q (g_recentLevels g) v = Inr ?q"
    using append_q_drop[OF assms(2,1)] .
  moreover have "max_q ?q = Some N" using assms(1) by simp
  moreover have "length (store ?q) \<noteq> 0" using assms(2) by simp
  ultimately obtain q where ap: "append_q (g_recentLevels g) v = Inr q"
    and m: "max_q q = Some N" and ne: "store q \<noteq> []"
    by (metis length_0_conv)
  from ne obtain a where av: "avg (store q) = Inr a" using avg_nonempty by blast
  define st where "st = applyInputs (g_state g) [v, a]"
  obtain d where rb: "runBranch (dispatch (getState st)) (g_dot g) (g_acPower g) now =
     Inr (d, case dispatch (getState st) of WarningBranch \<Rightarrow> snd (turnAcOff (g_acPower g) now)
                | ElseBranch \<Rightarrow> g_acPower g
                | _ \<Rightarrow> turnAcOn (g_acPower g) now)"
    using runBranch_Inr by blast
  have "tick g v now =
           Inr \<lparr>g_dot = d\<lparr>brightness := 0.0\<rparr>, g_recentLevels = q,
                g_acPower =
                  (case dispatch (getState st) of
                     WarningBranch \<Rightarrow> snd (turnAcOff (g_acPower g) now)
                   | ElseBranch \<Rightarrow> g_acPower g
                   | _ \<Rightarrow> turnAcOn (g_acPower g) now),
                g_state = st\<rparr>"
    by (simp add: tick_def ap av Let_def st_def[symmetric] rb)
  with m show ?thesis unfolding st_def by blast
qed

lemma runTicks_Inr:
  assumes "max_q (g_recentLevels g) = Some N" and "1 \<le> N"
    and "state (g_state g) \<in> {''normal'', ''info'', ''notice'', ''warning''}"
  shows "\<exists>shown g'. runTicks g inputs = Inr (shown, g')
           \<and> length shown = length inputs
           \<and> set shown \<subseteq> {''normal'', ''info'', ''notice'', ''warning''}"
  using assms
proof (induction inputs arbitrary: g)
  case Nil
  then show ?case by simp
next
  case (Cons p inputs)
  obtain v now where p: "p = (v, now)" by (cases p)
  from tick_Inr[OF Cons.prems(1,2), of v now] obtain g1 a
    where t: "tick g v now = Inr g1"
      and m: "max_q (g_recentLevels g1) = Some N"
      and st: "g_state g1 = applyInputs (g_state g) [v, a]"
    by force
  from st have four: "state (g_state g1) \<in> {''normal'', ''info'', ''notice'', ''warning''}"
    using applyInputs_four[OF Cons.prems(3)] by simp
  from Cons.IH[OF m Cons.prems(2) four] obtain shown g'
    where r: "runTicks g1 inputs = Inr (shown, g')"
      and l: "length shown = length inputs"
      and s: "set shown \<subseteq> {''normal'', ''info'', ''notice'', ''warning''}"
    by blast
  have "runTicks g (p # inputs) = Inr (getState (g_state g1) # shown, g')"
    by (simp add: p t r)
  moreover have "set (getState (g_state g1) # shown) \<subseteq> {''normal'', ''info'', ''notice'', ''warning''}"
    using four s by (simp add: getState_def)
  ultimately show ?case using l by simp
qed

lemma Globals_init_inv:
  "max_q (g_recentLevels (Globals_init d)) = Some 10"
  "state (g_state (Globals_init d)) \<in> {''normal'', ''info'', ''notice'', ''warning''}"
  by (simp_all add: Globals_init_def Queue_init_def State_init_def)

text \<open>
  The readings 1.5, 1.5, 2.25, 2.25 from the start of the program do not show
  \<open>warning\<close> in the fourth round.
\<close>

theorem C3_counterexample:
  "shownStates (Globals_init \<lparr>brightness = 1, pixel = [0, 0, 0]\<rparr>)
       [(1.5, 0), (1.5, 1), (2.25, 2), (2.25, 3)]
     \<noteq> Inr [''normal'', ''normal'', ''normal'', ''warning'']"
  by (simp add: shownStates_def tick_eval)

text \<open>
  Claim C3, amended. From the start of the program (queue of capacity 10, thresholds
  2.00, 2.12, 2.20), the readings 1.5, 1.5, 2.25, 2.25 show the states \<open>normal\<close>,
  \<open>normal\<close>, \<open>normal\<close>, \<open>normal\<close>, whatever the clock values: in the third and in the
  fourth round the reading is in the warning range while the average (1.75, then 1.875)
  is below the info threshold, so the state is left as it was.
\<close>

theorem C3_four_ticks_stay_normal:
  "shownStates (Globals_init d) [(1.5, t1), (1.5, t2), (2.25, t3), (2.25, t4)]
     = Inr [''normal'', ''normal'', ''normal'', ''normal'']"
  by (simp add: shownStates_def tick_eval)

text \<open>On the empty list \<open>avg\<close> raises the error of the division by zero.\<close>

theorem C4_counterexample:
  "avg [] = Inl ZeroDivisionError"
  by (simp add: avg_def)

text \<open>
  Claim C4, amended. \<open>avg\<close> of an empty buffer raises \<open>ZeroDivisionError\<close>, the error of
  the division by \<open>float(len(iter))\<close>. The error does not arise in the loop: every
  round appends the reading before it averages, and any number of rounds from the start
  of the program runs without an exception.
\<close>

theorem C4_avg_zero_division:
  "avg [] = Inl ZeroDivisionError
   \<and> (\<exists>shown g. runTicks (Globals_init d) rounds = Inr (shown, g))"
proof -
  from runTicks_Inr[OF Globals_init_inv(1) _ Globals_init_inv(2), of d rounds]
  have "\<exists>shown g. runTicks (Globals_init d) rounds = Inr (shown, g)" by auto
  then show ?thesis by (simp add: avg_def)
qed

theorem C4_avg_zero_division_witness:
  "avg [] = Inl ZeroDivisionError
   \<and> (\<exists>shown g. runTicks (Globals_init \<lparr>brightness = 1, pixel = [0, 0, 0]\<rparr>) [(2.25, 0), (1.5, 1)]
         = Inr (shown, g))"
  using C4_avg_zero_division[of "\<lparr>brightness = 1, pixel = [0, 0, 0]\<rparr>" "[(2.25, 0), (1.5, 1)]"]
  by blast

text \<open>
  Claim C9. \<open>turnAcOff\<close> sets the switch to \<open>acPowerOff\<close> in every state and at every
  time, while \<open>turnAcOn\<close> changes nothing during the cool-off. In a round of the loop
  (queue capacity at least 1) that classifies the state as \<open>warning\<close>, the power object
  afterwards is the result of \<open>turnAcOff\<close>, and the switch is off.
\<close>

theorem C9_warning_turns_off:
  "switch_value (snd (turnAcOff a now)) = acPowerOff
   \<and> (isCoolingOff a now \<longrightarrow> turnAcOn a now = a)
   \<and> (max_q (g_recentLevels g) = Some N \<and> 1 \<le> N \<longrightarrow>
        (\<exists>g'. tick g v now = Inr g'
           \<and> (getState (g_state g') = ''warning'' \<longrightarrow>
                g_acPower g' = snd (turnAcOff (g_acPower g) now)
                \<and> switch_value (g_acPower g') = acPowerOff)))"
proof (intro conjI impI)
  show off: "switch_value (snd (turnAcOff a now)) = acPowerOff" for a now
    by (simp add: turnAcOff_def Let_def)
  show "turnAcOn a now = a" if "isCoolingOff a now"
    using that by (simp add: turnAcOn_def)
  show "\<exists>g'. tick g v now = Inr g'
           \<and> (getState (g_state g') = ''warning'' \<longrightarrow>
                g_acPower g' = snd (turnAcOff (g_acPower g) now)
                \<and> switch_value (g_acPower g') = acPowerOff)"
    if h: "max_q (g_recentLevels g) = Some N \<and> 1 \<le> N"
  proof -
    from h tick_Inr[of g N v now] obtain d q x where
      t: "tick g v now =
           Inr \<lparr>g_dot = d, g_recentLevels = q,
                g_acPower =
                  (case dispatch (getState (applyInputs (g_state g) [v, x])) of
                     WarningBranch \<Rightarrow> snd (turnAcOff (g_acPower g) now)
                   | ElseBranch \<Rightarrow> g_acPower g
                   | _ \<Rightarrow> turnAcOn (g_acPower g) now),
                g_state = applyInputs (g_state g) [v, x]\<rparr>"
      by blast
    show ?thesis
      unfolding t by (simp add: dispatch_def off)
  qed
qed

theorem C9_warning_turns_off_witness:
  "\<exists>g'. tick (Globals_init \<lparr>brightness = 1, pixel = [0, 0, 0]\<rparr>) 2.25 5 = Inr g'
      \<and> getState (g_state g') = ''warning''
      \<and> switch_value (g_acPower g') = acPowerOff"
proof -
  let ?g = "Globals_init \<lparr>brightness = 1, pixel = [0, 0, 0]\<rparr>"
  have m: "max_q (g_recentLevels ?g) = Some 10 \<and> (1::int) \<le> 10"
    by (simp add: Globals_init_def Queue_init_def)
  from C9_warning_turns_off[of "g_acPower ?g" 5 ?g 10 "2.25"] m
  obtain g' where t: "tick ?g 2.25 5 = Inr g'"
    and w: "getState (g_state g') = ''warning'' \<longrightarrow> switch_value (g_acPower g') = acPowerOff"
    by blast
  have "\<exists>g'. tick ?g 2.25 5 = Inr g' \<and> getState (g_state g') = ''warning''"
    by (simp add: tick_eval)
  with t w show ?thesis by auto
qed

text \<open>
  Claim C10. The state of the classifier starts as \<open>normal\<close>; after any sequence of calls
  of \<open>applyInputs\<close> it is one of \<open>normal\<close>, \<open>info\<close>, \<open>notice\<close>, \<open>warning\<close>, so the dispatch
  on it does not reach the final \<open>else\<close>; and in any number of rounds of the loop from
  the start of the program, no state shown leads to the final \<open>else\<close>.
\<close>

theorem C10_state_is_one_of_four:
  "state (State_init i n w) = ''normal''
   \<and> state (applyAll (State_init i n w) calls) \<in> {''normal'', ''info'', ''notice'', ''warning''}
   \<and> dispatch (getState (applyAll (State_init i n w) calls)) \<noteq> ElseBranch
   \<and> (\<exists>shown g. runTicks (Globals_init d) rounds = Inr (shown, g)
         \<and> length shown = length rounds
         \<and> (\<forall>st \<in> set shown. dispatch st \<noteq> ElseBranch))"
proof -
  have i: "state (State_init i n w) \<in> {''normal'', ''info'', ''notice'', ''warning''}"
    by (simp add: State_init_def)
  have a: "state (applyAll (State_init i n w) calls) \<in> {''normal'', ''info'', ''notice'', ''warning''}"
    using applyAll_four[OF i] .
  then have b: "dispatch (getState (applyAll (State_init i n w) calls)) \<noteq> ElseBranch"
    unfolding getState_def by (rule dispatch_four)
  from runTicks_Inr[OF Globals_init_inv(1) _ Globals_init_inv(2), of d rounds]
  obtain shown g where r: "runTicks (Globals_init d) rounds = Inr (shown, g)"
    and l: "length shown = length rounds"
    and s: "set shown \<subseteq> {''normal'', ''info'', ''notice'', ''warning''}"
    by auto
  from s have "\<forall>st \<in> set shown. dispatch st \<noteq> ElseBranch"
    using dispatch_four by blast
  with r l a b show ?thesis by (simp add: State_init_def)
qed

theorem C10_state_is_one_of_four_witness:
  "state (applyAll (State_init 2.00 2.12 2.20) [[2.25, 2.25], [2.05, 2.25], []]) = ''warning''
   \<and> dispatch (getState (applyAll (State_init 2.00 2.12 2.20) [[2.25, 2.25], [2.05, 2.25], []]))
       = WarningBranch
   \<and> (\<exists>shown g. runTicks (Globals_init \<lparr>brightness = 1, pixel = [0, 0, 0]\<rparr>) [(2.25, 0), (1.5, 1)]
          = Inr (shown, g) \<and> (\<forall>st \<in> set shown. dispatch st \<noteq> ElseBranch))"
proof -
  let ?calls = "[[2.25, 2.25], [2.05, 2.25], []] :: real list list"
  let ?d = "\<lparr>brightness = 1, pixel = [0, 0, 0]\<rparr>"
  let ?rounds = "[(2.25, 0), (1.5, 1)] :: (real \<times> real) list"
  have w: "state (applyAll (State_init 2.00 2.12 2.20) ?calls) = ''warning''"
    by (simp add: applyInputs_def applyInput_def reduceAnd_def truthy_def State_init_def)
  from C10_state_is_one_of_four[of "2.00" "2.12" "2.20" ?calls ?d ?rounds]
  have "\<exists>shown g. runTicks (Globals_init ?d) ?rounds = Inr (shown, g)
          \<and> (\<forall>st \<in> set shown. dispatch st \<noteq> ElseBranch)"
    by blast
  with w show ?thesis by (simp add: getState_def dispatch_def)
qed

end
